theory Spec2Isabelle
  imports Complex_Main
begin

section \<open>Shared helpers: JavaScript values\<close>

text \<open>
  \<^verbatim>\<open>Date.now().toString()\<close> and the template strings of the source render a
  non-negative integer in decimal. The clock reading is an input of the model.
\<close>

definition digit_char :: "nat \<Rightarrow> char" where
  "digit_char d = ''0123456789'' ! d"

function show_nat :: "nat \<Rightarrow> string" where
  "show_nat n =
     (if n < 10 then [digit_char n]
      else show_nat (n div 10) @ [digit_char (n mod 10)])"
  by pat_completeness auto
termination
  by (relation "measure (\<lambda>n. n)") auto

declare show_nat.simps [simp del]

text \<open>JavaScript truthiness of an optional string: \<^verbatim>\<open>undefined\<close> and \<^verbatim>\<open>''\<close> are falsy.\<close>

fun truthy_str :: "string option \<Rightarrow> bool" where
  "truthy_str None = False"
| "truthy_str (Some x) = (x \<noteq> [])"

text \<open>\<^verbatim>\<open>a || b\<close> on an optional string.\<close>

fun or_str :: "string option \<Rightarrow> string \<Rightarrow> string" where
  "or_str None d = d"
| "or_str (Some x) d = (if x = [] then d else x)"

datatype toast = ToastSuccess string | ToastError string

section \<open>Chat turn consumer: \<^verbatim>\<open>components/Chat/ChatInterface.tsx\<close>\<close>

record chat_image =
  filename :: string
  data :: string

datatype msg_role = User | Assistant

text \<open>\<^verbatim>\<open>interface Message { id; type; content; images? }\<close>\<close>

record chat_message =
  msg_id :: string
  msg_type :: msg_role
  content :: string
  images :: "chat_image list option"

datatype step_kind = Searching | Reading | Writing | Images
datatype step_status = Pending | Active | StepComplete

text \<open>\<^verbatim>\<open>interface StreamingStep { id; type; label; status; details? }\<close>\<close>

record streaming_step =
  step_id :: string
  step_type :: step_kind
  label :: string
  status :: step_status
  details :: "string list option"

text \<open>
  The parsed payload of one server-sent event, by its \<^verbatim>\<open>data.type\<close>. \<open>Other\<close> is any
  type string that no \<^verbatim>\<open>case\<close> of the switch matches.
\<close>

datatype chat_event =
    Connected
  | SearchStart "string option"
  | SearchComplete nat "string list option"
  | ImagesFound int
  | Image string string
  | ResponseStart
  | Content string
  | Complete
  | End
  | Other

text \<open>
  The component state (the \<^verbatim>\<open>useState\<close> cells and refs), the log of toasts, and the
  environment of the handlers that \<^verbatim>\<open>startStreaming\<close> installs on its
  \<^verbatim>\<open>EventSource\<close>:
  \<^item> \<open>es_opened\<close>: how many times \<^verbatim>\<open>new EventSource(...)\<close> has run;
  \<^item> \<open>es_closed\<close>: \<^verbatim>\<open>eventSource.close()\<close> has been called on the latest one;
  \<^item> \<open>cl_message\<close>, \<open>cl_currentImages\<close>: the values of \<^verbatim>\<open>message\<close> and of the
    \<^verbatim>\<open>const currentImages\<close> of the render in which \<^verbatim>\<open>startStreaming\<close> was created.
    The handlers close over these constants; \<^verbatim>\<open>setCurrentImages\<close> changes the state cell
    \<open>currentImages\<close>, never the captured constant;
  \<^item> \<open>searchStepId\<close> ... \<open>imagesStepId\<close>: the \<^verbatim>\<open>let\<close> variables of the closure;
  \<^item> \<open>pendingClear\<close>: the number of \<^verbatim>\<open>setTimeout\<close> callbacks (clear the steps after
    1000 ms) not yet fired.
\<close>

record chat_state =
  sessionId :: "string option"
  messages :: "chat_message list"
  currentImages :: "chat_image list"
  inputMessage :: string
  isStreaming :: bool
  streamingSteps :: "streaming_step list"
  streamingMessageIdRef :: string
  toasts :: "toast list"
  es_opened :: nat
  es_closed :: bool
  cl_message :: string
  cl_currentImages :: "chat_image list"
  searchStepId :: string
  readStepId :: string
  writeStepId :: string
  imagesStepId :: string
  pendingClear :: nat

definition updateStep ::
  "string \<Rightarrow> (streaming_step \<Rightarrow> streaming_step) \<Rightarrow> chat_state \<Rightarrow> chat_state" where
  "updateStep i updates s =
     s\<lparr>streamingSteps :=
         map (\<lambda>step. if step_id step = i then updates step else step) (streamingSteps s)\<rparr>"

definition addStep :: "streaming_step \<Rightarrow> chat_state \<Rightarrow> chat_state" where
  "addStep step s = s\<lparr>streamingSteps := streamingSteps s @ [step]\<rparr>"

text \<open>\<^verbatim>\<open>msg.images || []\<close>: an array, even an empty one, is truthy.\<close>

fun images_or_empty :: "chat_image list option \<Rightarrow> chat_image list" where
  "images_or_empty None = []"
| "images_or_empty (Some xs) = xs"

text \<open>
  \<^verbatim>\<open>setMessages(prev => prev.map(msg => msg.id === streamingMessageIdRef.current ? f(msg) : msg))\<close>
\<close>

definition map_streaming :: "(chat_message \<Rightarrow> chat_message) \<Rightarrow> chat_state \<Rightarrow> chat_state" where
  "map_streaming f s =
     s\<lparr>messages :=
         map (\<lambda>msg. if msg_id msg = streamingMessageIdRef s then f msg else msg) (messages s)\<rparr>"

text \<open>
  The body of \<^verbatim>\<open>eventSource.onmessage\<close>, one equation per \<^verbatim>\<open>case\<close> of the switch.
  \<open>now\<close> is what \<^verbatim>\<open>Date.now()\<close> returns during the call.
\<close>

fun onmessage :: "nat \<Rightarrow> chat_event \<Rightarrow> chat_state \<Rightarrow> chat_state" where
  "onmessage now Connected s = s"
| "onmessage now (SearchStart query) s =
     (let sid = ''search-'' @ show_nat now in
      addStep \<lparr>step_id = sid, step_type = Searching, label = ''Searching the document'',
               status = Active, details = Some [or_str query (cl_message s)]\<rparr>
        (s\<lparr>searchStepId := sid\<rparr>))"
| "onmessage now (SearchComplete chunks_count sources) s =
     (let s1 = (if searchStepId s \<noteq> []
                then updateStep (searchStepId s)
                       (\<lambda>step. step\<lparr>status := StepComplete,
                          label := ''Found '' @ show_nat chunks_count @ '' relevant sections''\<rparr>) s
                else s);
          rid = ''read-'' @ show_nat now in
      addStep \<lparr>step_id = rid, step_type = Reading, label = ''Reading relevant sections'',
               status = Active,
               details = Some (case sources of None \<Rightarrow> [] | Some xs \<Rightarrow> xs)\<rparr>
        (s1\<lparr>readStepId := rid\<rparr>))"
| "onmessage now (ImagesFound count) s =
     (let s1 = (if readStepId s \<noteq> []
                then updateStep (readStepId s) (\<lambda>step. step\<lparr>status := StepComplete\<rparr>) s
                else s) in
      if count > 0 then
        (let iid = ''images-'' @ show_nat now in
         addStep \<lparr>step_id = iid, step_type = Images,
                  label = ''Found '' @ show_nat (nat count) @ '' relevant images'',
                  status = StepComplete, details = None\<rparr>
           (s1\<lparr>imagesStepId := iid\<rparr>))
      else s1)"
| "onmessage now (Image fname dat) s =
     (let newImage = \<lparr>filename = fname, data = dat\<rparr> in
      map_streaming (\<lambda>msg. msg\<lparr>images := Some (images_or_empty (images msg) @ [newImage])\<rparr>)
        (s\<lparr>currentImages := currentImages s @ [newImage]\<rparr>))"
| "onmessage now ResponseStart s =
     (let s1 = (if readStepId s \<noteq> []
                then updateStep (readStepId s) (\<lambda>step. step\<lparr>status := StepComplete\<rparr>) s
                else s);
          wid = ''write-'' @ show_nat now in
      addStep \<lparr>step_id = wid, step_type = Writing, label = ''Writing answer'',
               status = Active, details = None\<rparr>
        (s1\<lparr>writeStepId := wid\<rparr>))"
| "onmessage now (Content txt) s =
     map_streaming (\<lambda>msg. msg\<lparr>content := content msg @ txt\<rparr>) s"
| "onmessage now Complete s =
     (let s1 = (if writeStepId s \<noteq> []
                then updateStep (writeStepId s)
                       (\<lambda>step. step\<lparr>status := StepComplete, label := ''Answer complete''\<rparr>) s
                else s) in
      map_streaming
        (\<lambda>msg. msg\<lparr>images := Some (images_or_empty (images msg) @ cl_currentImages s)\<rparr>) s1)"
| "onmessage now End s =
     s\<lparr>isStreaming := False, pendingClear := Suc (pendingClear s), es_closed := True\<rparr>"
| "onmessage now Other s = s"

text \<open>The \<^verbatim>\<open>setTimeout\<close> callback installed by the \<^verbatim>\<open>'end'\<close> case.\<close>

definition clearStepsTimeout :: "chat_state \<Rightarrow> chat_state" where
  "clearStepsTimeout s =
     (if pendingClear s = 0 then s
      else s\<lparr>streamingSteps := [], pendingClear := pendingClear s - 1\<rparr>)"

text \<open>The body of \<^verbatim>\<open>eventSource.onerror\<close>.\<close>

definition onerror :: "chat_state \<Rightarrow> chat_state" where
  "onerror s =
     s\<lparr>toasts := toasts s @ [ToastError ''Connection error''],
       isStreaming := False, streamingSteps := [], es_closed := True\<rparr>"

text \<open>
  \<^verbatim>\<open>startStreaming(message)\<close>. \<open>t1\<close> and \<open>t2\<close> are the two readings of
  \<^verbatim>\<open>Date.now()\<close>. The handlers installed on the new \<^verbatim>\<open>EventSource\<close> capture
  \<^verbatim>\<open>message\<close> and the rendered \<^verbatim>\<open>currentImages\<close>, which is the value of the state cell
  before \<^verbatim>\<open>setCurrentImages([])\<close> takes effect.
\<close>

definition startStreaming :: "string \<Rightarrow> nat \<Rightarrow> nat \<Rightarrow> chat_state \<Rightarrow> chat_state" where
  "startStreaming message t1 t2 s =
     (if \<not> truthy_str (sessionId s)
      then s\<lparr>toasts := toasts s @ [ToastError ''Chat not initialized'']\<rparr>
      else
        (let userMsg = \<lparr>msg_id = show_nat t1, msg_type = User, content = message,
                        images = None\<rparr>;
             aid = show_nat (t2 + 1);
             assistantMsg = \<lparr>msg_id = aid, msg_type = Assistant, content = [],
                             images = Some []\<rparr>
         in s\<lparr>isStreaming := True, inputMessage := [], streamingSteps := [],
               currentImages := [],
               messages := messages s @ [userMsg, assistantMsg],
               streamingMessageIdRef := aid,
               es_opened := Suc (es_opened s),
               es_closed := False,
               cl_message := message,
               cl_currentImages := currentImages s,
               searchStepId := [], readStepId := [], writeStepId := [],
               imagesStepId := []\<rparr>))"

text \<open>
  \<^verbatim>\<open>inputMessage.trim()\<close> is falsy when the input holds only characters that
  \<^verbatim>\<open>String.prototype.trim\<close> strips: the WhiteSpace and LineTerminator code points of
  ECMAScript. A string is its UTF-8 bytes here, so a code point beyond ASCII is two or three
  bytes: U+00A0 is \<open>C2 A0\<close>, U+1680 is \<open>E1 9A 80\<close>, U+2000 to U+200A, U+2028, U+2029
  and U+202F are \<open>E2 80 xx\<close>, U+205F is \<open>E2 81 9F\<close>, U+3000 is \<open>E3 80 80\<close> and
  U+FEFF is \<open>EF BB BF\<close>.
\<close>

definition is_ascii_ws :: "char \<Rightarrow> bool" where
  "is_ascii_ws c =
     (c \<in> set [CHR 0x20, CHR 0x09, CHR 0x0A, CHR 0x0B, CHR 0x0C, CHR 0x0D])"

definition is_ws2 :: "char \<Rightarrow> char \<Rightarrow> bool" where
  "is_ws2 a b = (a = CHR 0xC2 \<and> b = CHR 0xA0)"

definition is_ws3 :: "char \<Rightarrow> char \<Rightarrow> char \<Rightarrow> bool" where
  "is_ws3 a b c =
     ((a = CHR 0xE1 \<and> b = CHR 0x9A \<and> c = CHR 0x80) \<or>
      (a = CHR 0xE2 \<and> b = CHR 0x80 \<and>
         (c \<in> set [CHR 0x80, CHR 0x81, CHR 0x82, CHR 0x83, CHR 0x84, CHR 0x85, CHR 0x86,
                    CHR 0x87, CHR 0x88, CHR 0x89, CHR 0x8A, CHR 0xA8, CHR 0xA9, CHR 0xAF])) \<or>
      (a = CHR 0xE2 \<and> b = CHR 0x81 \<and> c = CHR 0x9F) \<or>
      (a = CHR 0xE3 \<and> b = CHR 0x80 \<and> c = CHR 0x80) \<or>
      (a = CHR 0xEF \<and> b = CHR 0xBB \<and> c = CHR 0xBF))"

fun is_blank :: "string \<Rightarrow> bool" where
  "is_blank [] = True"
| "is_blank [a] = is_ascii_ws a"
| "is_blank [a, b] = (if is_ascii_ws a then is_blank [b] else is_ws2 a b)"
| "is_blank (a # b # c # rest) =
     (if is_ascii_ws a then is_blank (b # c # rest)
      else if is_ws2 a b then is_blank (c # rest)
      else if is_ws3 a b c then is_blank rest
      else False)"

definition setInputMessage :: "string \<Rightarrow> chat_state \<Rightarrow> chat_state" where
  "setInputMessage x s = s\<lparr>inputMessage := x\<rparr>"

definition handleSendMessage :: "nat \<Rightarrow> nat \<Rightarrow> chat_state \<Rightarrow> chat_state" where
  "handleSendMessage t1 t2 s =
     (if is_blank (inputMessage s) \<or> isStreaming s then s
      else startStreaming (inputMessage s) t1 t2 s)"

text \<open>The component as first rendered, and after \<^verbatim>\<open>initializeChat\<close> has succeeded.\<close>

definition initial_chat :: chat_state where
  "initial_chat =
     \<lparr>sessionId = None, messages = [], currentImages = [], inputMessage = [],
      isStreaming = False, streamingSteps = [], streamingMessageIdRef = [], toasts = [],
      es_opened = 0, es_closed = True, cl_message = [], cl_currentImages = [],
      searchStepId = [], readStepId = [], writeStepId = [], imagesStepId = [],
      pendingClear = 0\<rparr>"

definition initializeChat :: "string \<Rightarrow> chat_state \<Rightarrow> chat_state" where
  "initializeChat sid s =
     s\<lparr>sessionId := Some sid, toasts := toasts s @ [ToastSuccess ''Chat initialized successfully'']\<rparr>"

text \<open>
  The browser delivers a message to \<^verbatim>\<open>onmessage\<close> only while the \<^verbatim>\<open>EventSource\<close> is not
  closed; \<open>stream\<close> delivers a sequence of (clock reading, event) pairs in order.
\<close>

definition deliver :: "nat \<Rightarrow> chat_event \<Rightarrow> chat_state \<Rightarrow> chat_state" where
  "deliver now e s = (if es_closed s then s else onmessage now e s)"

fun stream :: "(nat \<times> chat_event) list \<Rightarrow> chat_state \<Rightarrow> chat_state" where
  "stream [] s = s"
| "stream (ne # rest) s = stream rest (deliver (fst ne) (snd ne) s)"

text \<open>
  A turn is in progress: the channel is open and the last message of the list is the
  assistant message that \<^verbatim>\<open>streamingMessageIdRef\<close> names.
\<close>

definition turn_open :: "chat_state \<Rightarrow> bool" where
  "turn_open s =
     (\<not> es_closed s \<and> messages s \<noteq> [] \<and>
      msg_id (last (messages s)) = streamingMessageIdRef s)"

text \<open>What one event contributes to the text and to the images of the turn in progress.\<close>

fun delta_text :: "chat_event \<Rightarrow> string" where
  "delta_text (Content txt) = txt"
| "delta_text e = []"

fun delivered_image :: "chat_event \<Rightarrow> chat_image list" where
  "delivered_image (Image fname dat) = [\<lparr>filename = fname, data = dat\<rparr>]"
| "delivered_image e = []"

section \<open>Progress stream consumer: \<^verbatim>\<open>hooks/useSSE.ts\<close>\<close>

text \<open>\<^verbatim>\<open>EventSource.readyState\<close> as the browser reports it when a handler runs.\<close>

datatype ready_state = CONNECTING | OPEN | CLOSED

record sse_result =
  document_id :: string
  chunks_processed :: rat
  images_extracted :: rat
  pickle_path :: string
  json_path :: string
  vector_store_path :: string

text \<open>
  The fields of \<^verbatim>\<open>SSEMessage['data']\<close> that the consumers read; all are optional in the
  source.
\<close>

record sse_data =
  step :: "rat option"
  progress :: "rat option"
  message :: "string option"
  result :: "sse_result option"

record sse_message =
  sse_type :: string
  sse_payload :: sse_data

text \<open>
  What \<^verbatim>\<open>JSON.parse(event.data)\<close> returned: its \<^verbatim>\<open>type\<close> and \<^verbatim>\<open>data\<close> properties when
  present, and the object itself read as a data object. A text that does not parse is
  \<open>None\<close>: the exception is caught and only logged.
\<close>

record sse_raw =
  raw_type :: "string option"
  raw_data :: "sse_data option"
  raw_self :: sse_data

text \<open>
  The hook's state. Every \<^verbatim>\<open>EventSource\<close> the hook constructs is named by its ordinal;
  \<open>sse_created\<close> counts them, \<open>sse_closedSources\<close> lists those on which \<^verbatim>\<open>close()\<close>
  was called, and \<open>sse_timers\<close> holds the pending \<^verbatim>\<open>setTimeout\<close> callbacks as
  (delay in ms, the \<^verbatim>\<open>eventSource\<close> the callback closes over).
\<close>

record sse_state =
  sse_messages :: "sse_message list"
  sse_connected :: bool
  sse_error :: "string option"
  eventSourceRef :: "nat option"
  sse_created :: nat
  sse_closedSources :: "nat list"
  sse_timers :: "(nat \<times> nat) list"

definition sse_initial :: sse_state where
  "sse_initial =
     \<lparr>sse_messages = [], sse_connected = False, sse_error = None, eventSourceRef = None,
      sse_created = 0, sse_closedSources = [], sse_timers = []\<rparr>"

text \<open>\<^verbatim>\<open>connect()\<close>; \<open>throws\<close> says whether the constructor raises.\<close>

definition sse_connect :: "bool \<Rightarrow> sse_state \<Rightarrow> sse_state" where
  "sse_connect throws s =
     (if throws then s\<lparr>sse_error := Some ''Failed to establish connection''\<rparr>
      else s\<lparr>eventSourceRef := Some (sse_created s), sse_created := Suc (sse_created s)\<rparr>)"

definition sse_onopen :: "sse_state \<Rightarrow> sse_state" where
  "sse_onopen s = s\<lparr>sse_connected := True, sse_error := None\<rparr>"

definition sse_onmessage :: "sse_raw option \<Rightarrow> sse_state \<Rightarrow> sse_state" where
  "sse_onmessage parsed s =
     (case parsed of
        None \<Rightarrow> s
      | Some d \<Rightarrow>
          s\<lparr>sse_messages := sse_messages s @
               [\<lparr>sse_type = or_str (raw_type d) ''progress'',
                 sse_payload = (case raw_data d of None \<Rightarrow> raw_self d | Some x \<Rightarrow> x)\<rparr>]\<rparr>)"

text \<open>
  \<^verbatim>\<open>eventSource.onerror\<close> of the source \<open>src\<close>, whose \<^verbatim>\<open>readyState\<close> is \<open>rs\<close> when the
  handler runs.
\<close>

definition sse_onerror :: "nat \<Rightarrow> ready_state \<Rightarrow> sse_state \<Rightarrow> sse_state" where
  "sse_onerror src rs s =
     (let s1 = s\<lparr>sse_connected := False\<rparr> in
      if rs = CLOSED then s1
      else s1\<lparr>sse_error := Some ''Connection error occurred'',
              sse_timers := sse_timers s1 @ [(3000, src)]\<rparr>)"

text \<open>The oldest pending \<^verbatim>\<open>setTimeout\<close> callback fires (all delays are equal).\<close>

definition sse_timeout :: "bool \<Rightarrow> sse_state \<Rightarrow> sse_state" where
  "sse_timeout throws s =
     (case sse_timers s of
        [] \<Rightarrow> s
      | t # rest \<Rightarrow>
          (let s1 = s\<lparr>sse_timers := rest\<rparr> in
           if eventSourceRef s1 = Some (snd t)
           then sse_connect throws (s1\<lparr>sse_closedSources := sse_closedSources s1 @ [snd t]\<rparr>)
           else s1))"

text \<open>The effect's cleanup function.\<close>

definition sse_cleanup :: "sse_state \<Rightarrow> sse_state" where
  "sse_cleanup s =
     (case eventSourceRef s of
        None \<Rightarrow> s
      | Some src \<Rightarrow>
          s\<lparr>sse_closedSources := sse_closedSources s @ [src], eventSourceRef := None\<rparr>)"

text \<open>
  One abnormal closure of the current channel: the browser reports an error on the current
  source while it is not \<open>CLOSED\<close>, and the reconnect timer then fires.
\<close>

definition sse_drop :: "sse_state \<Rightarrow> sse_state" where
  "sse_drop s =
     (case eventSourceRef s of
        None \<Rightarrow> s
      | Some src \<Rightarrow> sse_timeout False (sse_onerror src CONNECTING s))"

section \<open>Progress page reducer: \<^verbatim>\<open>pages/ProcessingPage.tsx\<close>\<close>

datatype status_type = Info | Success | StatusError | Loading

record saved_processing_data =
  saved_documentId :: string
  saved_result :: sse_result
  saved_processingTime :: nat
  completedAt :: string

record page_state =
  currentStep :: rat
  page_progress :: rat
  statusMessage :: string
  statusType :: status_type
  isComplete :: bool
  processingTime :: nat
  page_result :: "sse_result option"
  page_toasts :: "toast list"
  localStorage :: "string \<rightharpoonup> saved_processing_data"

definition page_initial :: page_state where
  "page_initial =
     \<lparr>currentStep = 1, page_progress = 0, statusMessage = ''Initializing...'',
      statusType = Loading, isComplete = False, processingTime = 0, page_result = None,
      page_toasts = [], localStorage = Map.empty\<rparr>"

text \<open>
  The effect on \<^verbatim>\<open>[messages]\<close>: the switch over the last message. \<open>documentId\<close> is the
  route parameter and \<open>iso_now\<close> is \<^verbatim>\<open>new Date().toISOString()\<close>. A JSON number is a
  rational here; \<^verbatim>\<open>if (x)\<close> on an optional number is false for \<^verbatim>\<open>undefined\<close> and for
  \<^verbatim>\<open>0\<close>, on an optional string for \<^verbatim>\<open>undefined\<close> and for the empty string.
\<close>

definition on_last_message ::
  "string option \<Rightarrow> string \<Rightarrow> sse_message \<Rightarrow> page_state \<Rightarrow> page_state" where
  "on_last_message documentId iso_now lastMessage p =
     (let d = sse_payload lastMessage in
      if sse_type lastMessage = ''connected'' then
        p\<lparr>statusMessage := or_str (message d) ''Connected to processing stream'',
          statusType := Info\<rparr>
      else if sse_type lastMessage = ''progress'' then
        (let p1 = (case step d of
                     None \<Rightarrow> p
                   | Some x \<Rightarrow> if x \<noteq> 0 then p\<lparr>currentStep := x\<rparr> else p);
             p2 = (case progress d of
                     None \<Rightarrow> p1
                   | Some x \<Rightarrow> if x \<noteq> 0 then p1\<lparr>page_progress := x\<rparr> else p1);
             p3 = (case message d of
                     None \<Rightarrow> p2
                   | Some x \<Rightarrow> if x \<noteq> [] then p2\<lparr>statusMessage := x\<rparr> else p2)
         in p3\<lparr>statusType := Loading\<rparr>)
      else if sse_type lastMessage = ''complete'' then
        (let p1 = p\<lparr>page_progress := 100,
                     statusMessage := or_str (message d) ''Processing complete!'',
                     statusType := Success, isComplete := True, page_result := result d\<rparr>;
             p2 = (case (documentId, result d) of
                     (Some doc, Some r) \<Rightarrow>
                       (if doc \<noteq> []
                        then p1\<lparr>localStorage := (localStorage p1)
                               (''processing_'' @ doc \<mapsto>
                                  \<lparr>saved_documentId = doc, saved_result = r,
                                   saved_processingTime = processingTime p,
                                   completedAt = iso_now\<rparr>)\<rparr>
                        else p1)
                   | _ \<Rightarrow> p1)
         in p2\<lparr>page_toasts := page_toasts p2 @
                  [ToastSuccess ''Processing completed successfully!'']\<rparr>)
      else if sse_type lastMessage = ''error'' then
        p\<lparr>statusMessage := or_str (message d) ''An error occurred'',
          statusType := StatusError,
          page_toasts := page_toasts p @ [ToastError ''Processing failed'']\<rparr>
      else p)"

definition on_messages_change ::
  "string option \<Rightarrow> string \<Rightarrow> sse_message list \<Rightarrow> page_state \<Rightarrow> page_state" where
  "on_messages_change documentId iso_now msgs p =
     (if msgs = [] then p else on_last_message documentId iso_now (last msgs) p)"

section \<open>WebSocket consumer: \<^verbatim>\<open>hooks/useWebSocket.ts\<close>\<close>

text \<open>\<^verbatim>\<open>interface WebSocketMessage { type; data: any }\<close>; the payload is kept as text.\<close>

record ws_message =
  ws_type :: string
  ws_payload :: string

record ws_state =
  ws_messages :: "ws_message list"
  ws_connected :: bool
  ws_error :: "string option"
  socketRef :: "nat option"
  reconnectAttempts :: nat
  ws_created :: nat
  ws_closedSockets :: "nat list"
  ws_timers :: "nat list"

definition maxReconnectAttempts :: nat where
  "maxReconnectAttempts = 5"

definition ws_initial :: ws_state where
  "ws_initial =
     \<lparr>ws_messages = [], ws_connected = False, ws_error = None, socketRef = None,
      reconnectAttempts = 0, ws_created = 0, ws_closedSockets = [], ws_timers = []\<rparr>"

definition ws_connect :: "bool \<Rightarrow> ws_state \<Rightarrow> ws_state" where
  "ws_connect throws s =
     (if throws then s\<lparr>ws_error := Some ''Failed to establish connection''\<rparr>
      else s\<lparr>socketRef := Some (ws_created s), ws_created := Suc (ws_created s)\<rparr>)"

definition ws_onopen :: "ws_state \<Rightarrow> ws_state" where
  "ws_onopen s = s\<lparr>ws_connected := True, ws_error := None, reconnectAttempts := 0\<rparr>"

definition ws_onmessage :: "ws_message option \<Rightarrow> ws_state \<Rightarrow> ws_state" where
  "ws_onmessage parsed s =
     (case parsed of
        None \<Rightarrow> s
      | Some m \<Rightarrow> s\<lparr>ws_messages := ws_messages s @ [m]\<rparr>)"

definition ws_onerror :: "ws_state \<Rightarrow> ws_state" where
  "ws_onerror s = s\<lparr>ws_error := Some ''Connection error occurred''\<rparr>"

text \<open>
  \<^verbatim>\<open>ws.onclose\<close>: the delay of the scheduled reconnect is computed from the counter
  after its increment.
\<close>

definition ws_onclose :: "ws_state \<Rightarrow> ws_state" where
  "ws_onclose s =
     (let s1 = s\<lparr>ws_connected := False\<rparr> in
      if reconnectAttempts s1 < maxReconnectAttempts then
        (let s2 = s1\<lparr>reconnectAttempts := reconnectAttempts s1 + 1\<rparr> in
         s2\<lparr>ws_timers := ws_timers s2 @ [2000 * reconnectAttempts s2]\<rparr>)
      else s1\<lparr>ws_error := Some ''Maximum reconnection attempts reached''\<rparr>)"

text \<open>A pending reconnect timer fires and runs \<^verbatim>\<open>connect()\<close>.\<close>

definition ws_timeout :: "bool \<Rightarrow> ws_state \<Rightarrow> ws_state" where
  "ws_timeout throws s =
     (case ws_timers s of
        [] \<Rightarrow> s
      | t # rest \<Rightarrow> ws_connect throws (s\<lparr>ws_timers := rest\<rparr>))"

definition ws_cleanup :: "ws_state \<Rightarrow> ws_state" where
  "ws_cleanup s =
     (case socketRef s of
        None \<Rightarrow> s
      | Some sock \<Rightarrow> s\<lparr>ws_closedSockets := ws_closedSockets s @ [sock], socketRef := None\<rparr>)"

text \<open>
  One closure that is followed by no successful open: the socket closes, and the reconnect
  timer, when one was scheduled, fires and constructs the next socket.
\<close>

definition ws_drop :: "ws_state \<Rightarrow> ws_state" where
  "ws_drop s = ws_timeout False (ws_onclose s)"

text \<open>
  The delays of the reconnect timers that \<open>n\<close> such closures in a row schedule, in order
  (no timer is pending when the first one happens).
\<close>

fun ws_delays :: "nat \<Rightarrow> ws_state \<Rightarrow> nat list" where
  "ws_delays 0 s = []"
| "ws_delays (Suc n) s = ws_timers (ws_onclose s) @ ws_delays n (ws_drop s)"

text \<open>
  The specification's ``exponential backoff'', for the delays below the bound: each delay
  is larger than the one before, by a constant ratio.
\<close>

fun geometric :: "nat list \<Rightarrow> bool" where
  "geometric (a # b # c # rest) = (a < b \<and> b * b = a * c \<and> geometric (b # c # rest))"
| "geometric [a, b] = (a < b)"
| "geometric [a] = True"
| "geometric [] = True"

section \<open>Credential rotation dispatcher (specification, section 4.4)\<close>

text \<open>
  Modelled from the spec: the dispatcher and its caller are not among the source files
  (the sources only document that several API keys are rotated), so the data model of
  section 3 and the operations of section 4.4 are written down from the specification.
  The specification names \<open>consecutiveFailures\<close> without saying how it changes; the model
  carries the field and leaves it alone.
\<close>

datatype slot_status = Available | CoolingDown nat

text \<open>
  Modelled from the spec: the CredentialSlot of section 3.
\<close>

record credential_slot =
  secret :: string
  slot_status :: slot_status
  consecutiveFailures :: nat

text \<open>
  Modelled from the spec: what the upstream provider answers to one call: a generation, a
  rate-limit signal with the advertised retry-after if any, or the deadline passing.
\<close>

datatype upstream_response = Generated string | RateLimitSignal "nat option" | DeadlineExceeded

text \<open>
  Modelled from the spec: the failures \<open>dispatch\<close> surfaces to its caller (section 7); a rate-limit
  signal is retried inside the call and is not one of them.
\<close>

datatype dispatch_error = PoolExhausted | UpstreamTimeout

text \<open>
  Modelled from the spec: the pool, the index used last, and the number of calls made to
  the upstream provider so far (the provider's answer to its \<open>k\<close>-th call is \<open>upstream k\<close>).
\<close>

record pool =
  slots :: "credential_slot list"
  lastUsed :: nat
  upstream_calls :: nat

text \<open>
  Modelled from the spec: a slot can be selected when it is Available or when its
  cool-down has expired (``self-heals to Available once past it'').
\<close>

definition selectable :: "nat \<Rightarrow> credential_slot \<Rightarrow> bool" where
  "selectable now c =
     (case slot_status c of Available \<Rightarrow> True | CoolingDown until \<Rightarrow> until \<le> now)"

text \<open>
  Modelled from the spec: round robin ``starting after the last-used index'': the indices
  after \<open>l\<close>, then those from the start up to \<open>l\<close>.
\<close>

definition candidates :: "nat \<Rightarrow> nat \<Rightarrow> nat list" where
  "candidates l n = [Suc l ..< n] @ [0 ..< min (Suc l) n]"

text \<open>
  Modelled from the spec: the selection, the first selectable credential in round-robin order, if any.
\<close>

definition select_next :: "nat \<Rightarrow> pool \<Rightarrow> nat option" where
  "select_next now p =
     find (\<lambda>i. selectable now (slots p ! i)) (candidates (lastUsed p) (length (slots p)))"

text \<open>
  Modelled from the spec: the cool-down window is the ``provider-advertised retry-after
  if present, else a fixed default''.
\<close>

fun window :: "nat \<Rightarrow> nat option \<Rightarrow> nat" where
  "window default_window None = default_window"
| "window default_window (Some retry_after) = retry_after"

text \<open>
  Modelled from the spec: using slot \<open>i\<close> for one upstream call: the slot, reached by the
  selection, is re-evaluated to Available; it becomes the last-used index.
\<close>

definition use_slot :: "nat \<Rightarrow> pool \<Rightarrow> pool" where
  "use_slot i p =
     p\<lparr>slots := (slots p)[i := (slots p ! i)\<lparr>slot_status := Available\<rparr>],
       lastUsed := i, upstream_calls := Suc (upstream_calls p)\<rparr>"

text \<open>
  Modelled from the spec: marking credential \<open>i\<close> as \<open>CoolingDown until\<close>.
\<close>

definition mark_cooling :: "nat \<Rightarrow> nat \<Rightarrow> pool \<Rightarrow> pool" where
  "mark_cooling i until p =
     p\<lparr>slots := (slots p)[i := (slots p ! i)\<lparr>slot_status := CoolingDown until\<rparr>]\<rparr>"


text \<open>
  Modelled from the spec: \<open>dispatch\<close> with \<open>k\<close> attempts left. A rate-limit signal marks the
  credential \<open>CoolingDown (now + window)\<close> and retries with the next Available one; a
  passed deadline retries without marking; when no credential can be selected the call
  fails with \<open>PoolExhausted\<close>. One call makes the first attempt and ``up to N - 1 further
  attempts'', that is \<open>length (slots p)\<close> attempts.
\<close>

fun dispatch_loop ::
  "(nat \<Rightarrow> upstream_response) \<Rightarrow> nat \<Rightarrow> nat \<Rightarrow> nat \<Rightarrow> pool \<Rightarrow> (dispatch_error + string) \<times> pool"
  where
  "dispatch_loop upstream default_window now 0 p =
     (Inl (if select_next now p = None then PoolExhausted else UpstreamTimeout), p)"
| "dispatch_loop upstream default_window now (Suc k) p =
     (case select_next now p of
        None \<Rightarrow> (Inl PoolExhausted, p)
      | Some i \<Rightarrow>
          (let p1 = use_slot i p in
           case upstream (upstream_calls p) of
             Generated r \<Rightarrow> (Inr r, p1)
           | RateLimitSignal retry_after \<Rightarrow>
               dispatch_loop upstream default_window now k
                 (mark_cooling i (now + window default_window retry_after) p1)
           | DeadlineExceeded \<Rightarrow> dispatch_loop upstream default_window now k p1))"

text \<open>
  Modelled from the spec: one \<open>dispatch\<close> call, with as many attempts as the pool has credentials.
\<close>

definition dispatch ::
  "(nat \<Rightarrow> upstream_response) \<Rightarrow> nat \<Rightarrow> nat \<Rightarrow> pool \<Rightarrow> (dispatch_error + string) \<times> pool" where
  "dispatch upstream default_window now p =
     dispatch_loop upstream default_window now (length (slots p)) p"

text \<open>
  Modelled from the spec: a pool of credentials, all Available, whose first selection
  starts at the first credential.
\<close>

definition fresh_pool :: "string list \<Rightarrow> pool" where
  "fresh_pool secrets =
     \<lparr>slots = map (\<lambda>k. \<lparr>secret = k, slot_status = Available, consecutiveFailures = 0\<rparr>) secrets,
      lastUsed = length secrets - 1, upstream_calls = 0\<rparr>"

text \<open>
  Modelled from the spec: the caller, the Writing state of the chat turn orchestrator
  (section 4.3): one call of \<open>dispatch\<close>; ``a Dispatcher failure moves the turn to
  Errored'', a generation moves it to Finalizing.
\<close>

datatype turn_phase =
  PhIdle | PhSearching | PhReading | PhWriting | PhFinalizing | PhDone | PhErrored


section \<open>Properties of the chat turn consumer\<close>

subsection \<open>What \<^verbatim>\<open>trim\<close> strips\<close>

lemma trim_examples:
  "is_blank [CHR 0xC2, CHR 0xA0] \<and> is_blank [CHR 0x20, CHR 0xE2, CHR 0x80, CHR 0xA8, CHR 0x09] \<and>
   \<not> is_blank ''a b'' \<and> \<not> is_blank [CHR 0xC2, CHR 0xA9]"
  by (simp add: is_ascii_ws_def is_ws2_def is_ws3_def)

subsection \<open>What the handlers leave alone\<close>

lemma map_streaming_fields [simp]:
  "streamingMessageIdRef (map_streaming f s) = streamingMessageIdRef s"
  "es_closed (map_streaming f s) = es_closed s"
  "es_opened (map_streaming f s) = es_opened s"
  "currentImages (map_streaming f s) = currentImages s"
  "cl_currentImages (map_streaming f s) = cl_currentImages s"
  by (simp_all add: map_streaming_def)

lemma updateStep_fields [simp]:
  "messages (updateStep i u s) = messages s"
  "streamingMessageIdRef (updateStep i u s) = streamingMessageIdRef s"
  "es_closed (updateStep i u s) = es_closed s"
  "es_opened (updateStep i u s) = es_opened s"
  "currentImages (updateStep i u s) = currentImages s"
  "cl_currentImages (updateStep i u s) = cl_currentImages s"
  by (simp_all add: updateStep_def)

lemma addStep_fields [simp]:
  "messages (addStep st s) = messages s"
  "streamingMessageIdRef (addStep st s) = streamingMessageIdRef s"
  "es_closed (addStep st s) = es_closed s"
  "es_opened (addStep st s) = es_opened s"
  "currentImages (addStep st s) = currentImages s"
  "cl_currentImages (addStep st s) = cl_currentImages s"
  by (simp_all add: addStep_def)

lemma onmessage_ref [simp]:
  "streamingMessageIdRef (onmessage now e s) = streamingMessageIdRef s"
  by (cases e) (simp_all add: Let_def)

lemma onmessage_opened [simp]:
  "es_opened (onmessage now e s) = es_opened s"
  by (cases e) (simp_all add: Let_def)

lemma onmessage_captured [simp]:
  "cl_currentImages (onmessage now e s) = cl_currentImages s"
  by (cases e) (simp_all add: Let_def)

lemma onmessage_closed:
  "e \<noteq> End \<Longrightarrow> es_closed (onmessage now e s) = es_closed s"
  by (cases e) (simp_all add: Let_def)

lemma messages_map_streaming:
  "messages (map_streaming f s) =
     map (\<lambda>msg. if msg_id msg = streamingMessageIdRef s then f msg else msg) (messages s)"
  by (simp add: map_streaming_def)

lemma onmessage_ids:
  "map msg_id (messages (onmessage now e s)) = map msg_id (messages s)"
  by (cases e) (simp_all add: Let_def messages_map_streaming o_def)

lemma onmessage_roles:
  "map msg_type (messages (onmessage now e s)) = map msg_type (messages s)"
  by (cases e) (simp_all add: Let_def messages_map_streaming o_def)

lemma onmessage_content_other:
  "(\<forall>t. e \<noteq> Content t) \<Longrightarrow> map content (messages (onmessage now e s)) = map content (messages s)"
  by (cases e) (simp_all add: Let_def messages_map_streaming o_def)

lemma onmessage_images_other:
  "(\<forall>f d. e \<noteq> Image f d) \<Longrightarrow> e \<noteq> Complete \<Longrightarrow> map images (messages (onmessage now e s)) = map images (messages s)"
  by (cases e) (simp_all add: Let_def messages_map_streaming o_def)

lemma last_map_ids:
  assumes "map msg_id xs = map msg_id ys" "ys \<noteq> []"
  shows "xs \<noteq> [] \<and> msg_id (last xs) = msg_id (last ys)"
proof -
  from assms have ne: "xs \<noteq> []" by auto
  have "msg_id (last xs) = last (map msg_id xs)" using ne by (simp add: last_map)
  also have "\<dots> = last (map msg_id ys)" using assms by simp
  also have "\<dots> = msg_id (last ys)" using assms by (simp add: last_map)
  finally show ?thesis using ne by simp
qed

lemma turn_open_onmessage:
  "turn_open s \<Longrightarrow> e \<noteq> End \<Longrightarrow> turn_open (onmessage now e s)"
  unfolding turn_open_def
  using last_map_ids [OF onmessage_ids, of s now e] onmessage_closed [of e now s]
  by simp

lemma turn_open_deliver:
  "turn_open s \<Longrightarrow> e \<noteq> End \<Longrightarrow> turn_open (deliver now e s)"
  by (simp add: deliver_def turn_open_onmessage)

lemma turn_open_stream:
  "turn_open s \<Longrightarrow> End \<notin> snd ` set evs \<Longrightarrow> turn_open (stream evs s)"
  by (induction evs arbitrary: s) (auto simp: turn_open_deliver)

lemma turn_open_start:
  "truthy_str (sessionId s) \<Longrightarrow> turn_open (startStreaming m t1 t2 s)"
  by (simp add: startStreaming_def turn_open_def Let_def)


lemma stream_append: "stream (xs @ ys) s = stream ys (stream xs s)"
  by (induction xs arbitrary: s) simp_all

lemma last_map_streaming:
  assumes "turn_open s"
  shows "last (messages (map_streaming f s)) = f (last (messages s))"
  using assms by (simp add: messages_map_streaming turn_open_def last_map)

lemma stream_closed: "es_closed s \<Longrightarrow> stream evs s = s"
  by (induction evs arbitrary: s) (simp_all add: deliver_def)

lemma deliver_opened [simp]: "es_opened (deliver now e s) = es_opened s"
  by (simp add: deliver_def)

lemma stream_opened [simp]: "es_opened (stream evs s) = es_opened s"
  by (induction evs arbitrary: s) simp_all

lemma deliver_content_other:
  "(\<forall>t. e \<noteq> Content t) \<Longrightarrow> map content (messages (deliver now e s)) = map content (messages s)"
  by (simp add: deliver_def onmessage_content_other)

lemma deliver_ids: "map msg_id (messages (deliver now e s)) = map msg_id (messages s)"
  by (simp add: deliver_def onmessage_ids)

lemma deliver_roles: "map msg_type (messages (deliver now e s)) = map msg_type (messages s)"
  by (simp add: deliver_def onmessage_roles)

lemma deliver_image_last:
  "turn_open s \<Longrightarrow>
   last (messages (deliver now (Image f d) s)) =
     (last (messages s))\<lparr>images :=
        Some (images_or_empty (images (last (messages s))) @ [\<lparr>filename = f, data = d\<rparr>])\<rparr>"
  by (simp add: deliver_def turn_open_def messages_map_streaming last_map Let_def)

lemma deliver_content_last:
  "turn_open s \<Longrightarrow>
   last (messages (deliver now (Content t) s)) =
     (last (messages s))\<lparr>content := content (last (messages s)) @ t\<rparr>"
  by (simp add: deliver_def turn_open_def messages_map_streaming last_map)

text \<open>
  Claim C1, as the code has it. The handler of \<^verbatim>\<open>'image'\<close> has no guard: an Image event
  that arrives after Complete (while the channel is still open) is not ignored. It is
  appended to the images of the assistant turn and to \<open>currentImages\<close>, exactly like one
  that arrives before Complete; the text, id and role of every turn stay as they were.
\<close>

theorem image_after_complete_appended:
  assumes "truthy_str (sessionId s)" and "End \<notin> snd ` set evs"
    and "s1 = stream (evs @ [(n, Complete)]) (startStreaming m t1 t2 s)"
  shows "images (last (messages (deliver now (Image f d) s1))) =
           Some (images_or_empty (images (last (messages s1))) @ [\<lparr>filename = f, data = d\<rparr>]) \<and>
         currentImages (deliver now (Image f d) s1) =
           currentImages s1 @ [\<lparr>filename = f, data = d\<rparr>] \<and>
         map content (messages (deliver now (Image f d) s1)) = map content (messages s1) \<and>
         map msg_id (messages (deliver now (Image f d) s1)) = map msg_id (messages s1) \<and>
         map msg_type (messages (deliver now (Image f d) s1)) = map msg_type (messages s1)"
proof -
  have "End \<notin> snd ` set (evs @ [(n, Complete)])" using assms(2) by auto
  then have op: "turn_open s1"
    unfolding assms(3) by (rule turn_open_stream [OF turn_open_start [OF assms(1)]])
  have cur: "currentImages (deliver now (Image f d) s1) =
           currentImages s1 @ [\<lparr>filename = f, data = d\<rparr>]"
    using op by (simp add: deliver_def turn_open_def Let_def)
  show ?thesis
    using deliver_image_last [OF op] cur
    by (simp add: deliver_content_other deliver_ids deliver_roles)
qed

theorem image_after_complete_appended_witness:
  "truthy_str (sessionId (initializeChat ''s1'' initial_chat)) \<and>
   End \<notin> snd ` set [(10::nat, Image ''a.png'' ''AAAA'')] \<and>
   images (last (messages (deliver 12 (Image ''b.png'' ''BBBB'')
     (stream ([(10, Image ''a.png'' ''AAAA'')] @ [(11, Complete)])
        (startStreaming ''What is X?'' 1000 1000 (initializeChat ''s1'' initial_chat)))))) =
   Some [\<lparr>filename = ''a.png'', data = ''AAAA''\<rparr>, \<lparr>filename = ''b.png'', data = ''BBBB''\<rparr>]"
proof -
  have h1: "truthy_str (sessionId (initializeChat ''s1'' initial_chat))"
    by (simp add: initializeChat_def)
  have h2: "End \<notin> snd ` set [(10::nat, Image ''a.png'' ''AAAA'')]" by simp
  have e: "images (last (messages (stream ([(10, Image ''a.png'' ''AAAA'')] @ [(11, Complete)])
        (startStreaming ''What is X?'' 1000 1000 (initializeChat ''s1'' initial_chat))))) =
        Some [\<lparr>filename = ''a.png'', data = ''AAAA''\<rparr>]"
    by (simp add: deliver_def startStreaming_def initializeChat_def initial_chat_def
        map_streaming_def Let_def)
  show ?thesis
    using h1 h2 e image_after_complete_appended [OF h1 h2 refl, where n = 11 and m = "''What is X?''"
        and ?t1.0 = 1000 and ?t2.0 = 1000 and now = 12 and f = "''b.png''" and d = "''BBBB''"]
    by simp
qed

text \<open>
  Claim C6, as the code has it. The text of a turn is changed by content events only,
  and by those also after Complete: any other event leaves the text of every turn
  unchanged, and a content event that arrives after Complete (while the channel is still
  open) is appended to the assistant turn's text.
\<close>

theorem text_changed_by_content_only:
  assumes "truthy_str (sessionId s)" and "End \<notin> snd ` set evs"
    and "s1 = stream (evs @ [(n, Complete)]) (startStreaming m t1 t2 s)"
  shows "((\<forall>t. e \<noteq> Content t) \<longrightarrow>
            map content (messages (deliver now e s1)) = map content (messages s1)) \<and>
         content (last (messages (deliver now (Content t') s1))) =
           content (last (messages s1)) @ t'"
proof -
  have "End \<notin> snd ` set (evs @ [(n, Complete)])" using assms(2) by auto
  then have op: "turn_open s1"
    unfolding assms(3) by (rule turn_open_stream [OF turn_open_start [OF assms(1)]])
  show ?thesis
    using deliver_content_last [OF op] by (simp add: deliver_content_other)
qed

theorem text_changed_by_content_only_witness:
  "truthy_str (sessionId (initializeChat ''s1'' initial_chat)) \<and>
   End \<notin> snd ` set [(10::nat, Content ''a'')] \<and>
   map content (messages (deliver 12 (Image ''b.png'' ''BBBB'')
     (stream ([(10, Content ''a'')] @ [(11, Complete)])
        (startStreaming ''What is X?'' 1000 1000 (initializeChat ''s1'' initial_chat))))) =
   [''What is X?'', ''a''] \<and>
   content (last (messages (deliver 12 (Content ''b'')
     (stream ([(10, Content ''a'')] @ [(11, Complete)])
        (startStreaming ''What is X?'' 1000 1000 (initializeChat ''s1'' initial_chat)))))) =
   ''ab''"
proof -
  have h1: "truthy_str (sessionId (initializeChat ''s1'' initial_chat))"
    by (simp add: initializeChat_def)
  have h2: "End \<notin> snd ` set [(10::nat, Content ''a'')]" by simp
  have e: "map content (messages (stream ([(10, Content ''a'')] @ [(11, Complete)])
        (startStreaming ''What is X?'' 1000 1000 (initializeChat ''s1'' initial_chat)))) =
        [''What is X?'', ''a'']"
    by (simp add: deliver_def startStreaming_def initializeChat_def initial_chat_def
        map_streaming_def Let_def show_nat.simps digit_char_def)
  have e2: "content (last (messages (stream ([(10, Content ''a'')] @ [(11, Complete)])
        (startStreaming ''What is X?'' 1000 1000 (initializeChat ''s1'' initial_chat))))) =
        ''a''"
    by (simp add: deliver_def startStreaming_def initializeChat_def initial_chat_def
        map_streaming_def Let_def)
  show ?thesis
    using h1 h2 e e2 text_changed_by_content_only [OF h1 h2 refl, where n = 11 and m = "''What is X?''"
        and ?t1.0 = 1000 and ?t2.0 = 1000 and e = "Image ''b.png'' ''BBBB''" and now = 12
        and t' = "''b''"]
    by simp
qed

text \<open>
  Claim C7. The \<^verbatim>\<open>onerror\<close> handler of the chat stream leaves the message list (the
  streamed text and the delivered images of the assistant turn) and \<open>currentImages\<close>
  unchanged; apart from the toast it raises it changes only \<open>isStreaming\<close>,
  \<open>streamingSteps\<close> and the channel, which it closes, so that no later event (and no
  Complete) touches the turn.
\<close>

theorem error_keeps_partial_turn:
  "messages (onerror s) = messages s \<and>
   currentImages (onerror s) = currentImages s \<and>
   (onerror s)\<lparr>isStreaming := isStreaming s, streamingSteps := streamingSteps s,
               toasts := toasts s, es_closed := es_closed s\<rparr> = s \<and>
   isStreaming (onerror s) = False \<and>
   stream evs (onerror s) = onerror s"
  by (simp add: onerror_def stream_closed)

subsection \<open>Interleaved events\<close>

lemma last_content_map:
  assumes "map content xs = map content ys" "ys \<noteq> []"
  shows "content (last xs) = content (last ys)"
proof -
  from assms have ne: "xs \<noteq> []" by auto
  have "content (last xs) = last (map content xs)" using ne by (simp add: last_map)
  also have "\<dots> = last (map content ys)" using assms(1) by simp
  also have "\<dots> = content (last ys)" using assms(2) by (simp add: last_map)
  finally show ?thesis .
qed

lemma deliver_text_step:
  assumes "turn_open s" "e \<noteq> End"
  shows "content (last (messages (deliver now e s))) =
         content (last (messages s)) @ delta_text e"
proof (cases "\<exists>t. e = Content t")
  case True
  then obtain t where "e = Content t" by blast
  then show ?thesis using deliver_content_last [OF assms(1)] by simp
next
  case False
  then have n: "\<forall>t. e \<noteq> Content t" by blast
  have ne: "messages s \<noteq> []" using assms(1) by (simp add: turn_open_def)
  have "delta_text e = []" using n by (cases e) simp_all
  then show ?thesis
    using last_content_map [OF deliver_content_other [OF n] ne] by simp
qed

lemma text_of_stream:
  assumes "turn_open s" "End \<notin> snd ` set evs"
  shows "content (last (messages (stream evs s))) =
         content (last (messages s)) @ concat (map (\<lambda>ne. delta_text (snd ne)) evs)"
  using assms
proof (induction evs arbitrary: s)
  case Nil
  then show ?case by simp
next
  case (Cons ne evs)
  have e: "snd ne \<noteq> End" using Cons.prems(2) by auto
  have op: "turn_open (deliver (fst ne) (snd ne) s)"
    using Cons.prems(1) e by (rule turn_open_deliver)
  have rest: "End \<notin> snd ` set evs" using Cons.prems(2) by auto
  show ?case
    using Cons.IH [OF op rest] deliver_text_step [OF Cons.prems(1) e] by simp
qed

lemma deliver_images_step:
  assumes "turn_open s" "e \<noteq> End"
  shows "images_or_empty (images (last (messages (deliver now e s)))) =
         images_or_empty (images (last (messages s))) @ delivered_image e @
         (if e = Complete then cl_currentImages s else [])"
  using assms
  by (cases e)
     (simp_all add: deliver_def turn_open_def messages_map_streaming last_map Let_def)

lemma deliver_captured [simp]: "cl_currentImages (deliver now e s) = cl_currentImages s"
  by (simp add: deliver_def)

lemma images_of_first_turn:
  assumes "turn_open s" "End \<notin> snd ` set evs" "cl_currentImages s = []"
  shows "images_or_empty (images (last (messages (stream evs s)))) =
         images_or_empty (images (last (messages s))) @
         concat (map (\<lambda>ne. delivered_image (snd ne)) evs)"
  using assms
proof (induction evs arbitrary: s)
  case Nil
  then show ?case by simp
next
  case (Cons ne evs)
  have e: "snd ne \<noteq> End" using Cons.prems(2) by auto
  have op: "turn_open (deliver (fst ne) (snd ne) s)"
    using Cons.prems(1) e by (rule turn_open_deliver)
  have rest: "End \<notin> snd ` set evs" using Cons.prems(2) by auto
  have cap: "cl_currentImages (deliver (fst ne) (snd ne) s) = []"
    using Cons.prems(3) by simp
  show ?case
    using Cons.IH [OF op rest cap] deliver_images_step [OF Cons.prems(1) e] Cons.prems(3)
    by simp
qed

text \<open>
  When the captured \<^verbatim>\<open>currentImages\<close> is empty (the first turn of a component, or a turn
  after one that delivered no image), the assistant turn holds the delivered images, each
  once, in arrival order, whatever other events are interleaved.
\<close>

lemma first_turn_images:
  assumes "truthy_str (sessionId s)" "currentImages s = []" "End \<notin> snd ` set evs"
  shows "images_or_empty (images (last (messages (stream evs (startStreaming m t1 t2 s))))) =
         concat (map (\<lambda>ne. delivered_image (snd ne)) evs)"
proof -
  have c: "cl_currentImages (startStreaming m t1 t2 s) = []"
    using assms(1,2) by (simp add: startStreaming_def Let_def)
  have i: "images_or_empty (images (last (messages (startStreaming m t1 t2 s)))) = []"
    using assms(1) by (simp add: startStreaming_def Let_def)
  show ?thesis
    using images_of_first_turn [OF turn_open_start [OF assms(1)] assms(3) c] i by simp
qed

text \<open>
  Claim C5. In a turn started by \<^verbatim>\<open>startStreaming\<close>, whatever events the stream delivers
  before End (the search, image and step events of the protocol interleaved with the
  content events), the text of the assistant turn (the last message) is the concatenation,
  in arrival order, of the texts of the content events: each delta is appended exactly
  once. The text is the same after End and whatever follows it.
\<close>

theorem content_accumulates:
  assumes "truthy_str (sessionId s)" and "End \<notin> snd ` set evs"
  shows "content (last (messages (stream evs (startStreaming m t1 t2 s)))) =
           concat (map (\<lambda>ne. delta_text (snd ne)) evs) \<and>
         content (last (messages (stream (evs @ (n, End) # rest) (startStreaming m t1 t2 s)))) =
           concat (map (\<lambda>ne. delta_text (snd ne)) evs)"
proof -
  let ?s0 = "startStreaming m t1 t2 s"
  have z: "content (last (messages ?s0)) = []"
    using assms(1) by (simp add: startStreaming_def Let_def)
  have a: "content (last (messages (stream evs ?s0))) =
           concat (map (\<lambda>ne. delta_text (snd ne)) evs)"
    using text_of_stream [OF turn_open_start [OF assms(1)] assms(2)] z by simp
  have op: "turn_open (stream evs ?s0)"
    using turn_open_start [OF assms(1)] assms(2) by (rule turn_open_stream)
  then have o: "\<not> es_closed (stream evs ?s0)" by (simp add: turn_open_def)
  have c: "es_closed (deliver n End (stream evs ?s0))" using o by (simp add: deliver_def)
  have "stream (evs @ (n, End) # rest) ?s0 = stream rest (deliver n End (stream evs ?s0))"
    by (simp add: stream_append)
  also have "\<dots> = deliver n End (stream evs ?s0)" using c by (rule stream_closed)
  finally have "messages (stream (evs @ (n, End) # rest) ?s0) = messages (stream evs ?s0)"
    using o by (simp add: deliver_def)
  with a show ?thesis by simp
qed

theorem content_accumulates_witness:
  "truthy_str (sessionId (initializeChat ''s1'' initial_chat)) \<and>
   End \<notin> snd ` set [(1::nat, SearchStart (Some ''What is X?'')), (2, SearchComplete 3 None),
      (3, Image ''img1.png'' ''D1''), (4, Image ''img2.png'' ''D2''), (5, ImagesFound 2),
      (6, ResponseStart), (7, Content ''Hel''), (8, Content ''lo''), (9, Content ''!''),
      (10, Complete)] \<and>
   content (last (messages
     (stream ([(1, SearchStart (Some ''What is X?'')), (2, SearchComplete 3 None),
        (3, Image ''img1.png'' ''D1''), (4, Image ''img2.png'' ''D2''), (5, ImagesFound 2),
        (6, ResponseStart), (7, Content ''Hel''), (8, Content ''lo''), (9, Content ''!''),
        (10, Complete)] @ (11, End) # [])
        (startStreaming ''What is X?'' 1000 1000 (initializeChat ''s1'' initial_chat))))) =
   ''Hello!''"
proof -
  let ?evs = "[(1::nat, SearchStart (Some ''What is X?'')), (2, SearchComplete 3 None),
      (3, Image ''img1.png'' ''D1''), (4, Image ''img2.png'' ''D2''), (5, ImagesFound 2),
      (6, ResponseStart), (7, Content ''Hel''), (8, Content ''lo''), (9, Content ''!''),
      (10, Complete)]"
  have h1: "truthy_str (sessionId (initializeChat ''s1'' initial_chat))"
    by (simp add: initializeChat_def)
  have h2: "End \<notin> snd ` set ?evs" by simp
  have d: "concat (map (\<lambda>ne. delta_text (snd ne)) ?evs) = ''Hello!''" by simp
  note th = content_accumulates [OF h1 h2, where m = "''What is X?''" and ?t1.0 = 1000
      and ?t2.0 = 1000 and n = 11 and rest = "[]"]
  from th have "content (last (messages (stream (?evs @ (11, End) # [])
        (startStreaming ''What is X?'' 1000 1000 (initializeChat ''s1'' initial_chat))))) =
        concat (map (\<lambda>ne. delta_text (snd ne)) ?evs)"
    by (rule conjunct2)
  then have e: "content (last (messages (stream (?evs @ (11, End) # [])
        (startStreaming ''What is X?'' 1000 1000 (initializeChat ''s1'' initial_chat))))) =
        ''Hello!''"
    unfolding d .
  show ?thesis using h1 h2 e by blast
qed

subsection \<open>Concrete runs\<close>

text \<open>
  Claim C1 as stated fails: after Complete, an Image event changes the images of the
  assistant turn.
\<close>

theorem image_after_complete_counterexample:
  "images (last (messages
     (stream [(10, Complete), (11, Image ''a.png'' ''AAAA'')]
        (startStreaming ''What is X?'' 1000 1000 (initializeChat ''s1'' initial_chat))))) \<noteq>
   images (last (messages
     (stream [(10, Complete)]
        (startStreaming ''What is X?'' 1000 1000 (initializeChat ''s1'' initial_chat)))))"
  by (simp add: deliver_def startStreaming_def initializeChat_def initial_chat_def
      map_streaming_def Let_def)

text \<open>
  Claim C6 as stated fails: after Complete, a content event changes the text of the
  assistant turn.
\<close>

theorem late_content_counterexample:
  "content (last (messages
     (stream [(10, Content ''a''), (11, Complete), (12, Content ''b'')]
        (startStreaming ''What is X?'' 1000 1000 (initializeChat ''s1'' initial_chat))))) \<noteq>
   content (last (messages
     (stream [(10, Content ''a''), (11, Complete)]
        (startStreaming ''What is X?'' 1000 1000 (initializeChat ''s1'' initial_chat)))))"
  by (simp add: deliver_def startStreaming_def initializeChat_def initial_chat_def
      map_streaming_def Let_def)

text \<open>
  Claim C4 at a second turn. The first turn delivers \<open>img1.png\<close> and ends; the second turn
  delivers \<open>img2.png\<close> only. At Complete the handler appends the \<^verbatim>\<open>currentImages\<close> that
  \<^verbatim>\<open>startStreaming\<close> captured, which are the images of the first turn: the second
  assistant turn ends with \<open>img2.png\<close> followed by \<open>img1.png\<close>.
\<close>

theorem second_turn_images:
  "images (last (messages
     (stream [(20, Image ''img2.png'' ''D2''), (21, Complete)]
        (handleSendMessage 2000 2000 (setInputMessage ''And Y?''
           (stream [(10, Image ''img1.png'' ''D1''), (11, Complete), (12, End)]
              (handleSendMessage 1000 1000 (setInputMessage ''What is X?''
                 (initializeChat ''s1'' initial_chat)))))))))
   = Some [\<lparr>filename = ''img2.png'', data = ''D2''\<rparr>, \<lparr>filename = ''img1.png'', data = ''D1''\<rparr>]"
  by (simp add: deliver_def startStreaming_def initializeChat_def initial_chat_def
      map_streaming_def updateStep_def addStep_def Let_def handleSendMessage_def
      setInputMessage_def is_ascii_ws_def is_ws2_def is_ws3_def show_nat.simps
      digit_char_def)

section \<open>Properties of the reconnecting consumers\<close>

lemma ws_drop_step:
  assumes "ws_timers s = []"
  shows "ws_timers (ws_drop s) = [] \<and>
         reconnectAttempts (ws_drop s) =
           (if reconnectAttempts s < maxReconnectAttempts then Suc (reconnectAttempts s)
            else reconnectAttempts s) \<and>
         ws_created (ws_drop s) =
           (if reconnectAttempts s < maxReconnectAttempts then Suc (ws_created s) else ws_created s) \<and>
         (maxReconnectAttempts \<le> reconnectAttempts s \<longrightarrow>
            ws_error (ws_drop s) = Some ''Maximum reconnection attempts reached'')"
  using assms
  by (simp add: ws_drop_def ws_onclose_def ws_timeout_def ws_connect_def Let_def)

lemma ws_drop_funpow:
  assumes "ws_timers s = []" "reconnectAttempts s \<le> maxReconnectAttempts"
  shows "ws_timers ((ws_drop ^^ n) s) = [] \<and>
         reconnectAttempts ((ws_drop ^^ n) s) = min (reconnectAttempts s + n) maxReconnectAttempts \<and>
         ws_created ((ws_drop ^^ n) s) =
           ws_created s + (min (reconnectAttempts s + n) maxReconnectAttempts - reconnectAttempts s)"
  using assms
proof (induction n)
  case 0
  then show ?case by simp
next
  case (Suc n)
  let ?s = "(ws_drop ^^ n) s"
  from Suc have ih: "ws_timers ?s = []"
    "reconnectAttempts ?s = min (reconnectAttempts s + n) maxReconnectAttempts"
    "ws_created ?s = ws_created s + (min (reconnectAttempts s + n) maxReconnectAttempts - reconnectAttempts s)"
    by simp_all
  from ws_drop_step [OF ih(1)] ih Suc.prems show ?case
    by (auto simp: min_def)
qed

text \<open>
  Claim C2, for the WebSocket consumer. Starting with the counter at zero and no timer
  pending, \<open>n\<close> closures in a row (none followed by a successful open) construct
  \<open>min n 5\<close> new sockets: at most \<open>maxReconnectAttempts\<close> reconnections. From the
  sixth closure on nothing is scheduled and the error state is
  \<open>Maximum reconnection attempts reached\<close>.
\<close>

theorem ws_reconnects_bounded:
  assumes "reconnectAttempts s = 0" and "ws_timers s = []"
  shows "ws_created ((ws_drop ^^ n) s) = ws_created s + min n maxReconnectAttempts \<and>
         reconnectAttempts ((ws_drop ^^ n) s) = min n maxReconnectAttempts \<and>
         (maxReconnectAttempts < n \<longrightarrow>
            ws_error ((ws_drop ^^ n) s) = Some ''Maximum reconnection attempts reached'' \<and>
            ws_timers ((ws_drop ^^ n) s) = [])"
proof -
  have le: "reconnectAttempts s \<le> maxReconnectAttempts" using assms(1) by simp
  note fp = ws_drop_funpow [OF assms(2) le]
  have "ws_error ((ws_drop ^^ n) s) = Some ''Maximum reconnection attempts reached''"
    if "maxReconnectAttempts < n"
  proof -
    from that obtain k where k: "n = Suc k" "maxReconnectAttempts \<le> k"
      by (cases n) auto
    have t: "ws_timers ((ws_drop ^^ k) s) = []" using fp [of k] by simp
    have a: "maxReconnectAttempts \<le> reconnectAttempts ((ws_drop ^^ k) s)"
      using fp [of k] k(2) assms(1) by simp
    from ws_drop_step [OF t] a show ?thesis by (simp add: k(1))
  qed
  then show ?thesis using fp [of n] assms(1) by simp
qed

theorem ws_reconnects_bounded_witness:
  "reconnectAttempts (ws_connect False ws_initial) = 0 \<and>
   ws_timers (ws_connect False ws_initial) = [] \<and>
   ws_created ((ws_drop ^^ 7) (ws_connect False ws_initial)) = 6 \<and>
   ws_error ((ws_drop ^^ 7) (ws_connect False ws_initial)) =
     Some ''Maximum reconnection attempts reached''"
proof -
  have h1: "reconnectAttempts (ws_connect False ws_initial) = 0"
    by (simp add: ws_connect_def ws_initial_def)
  have h2: "ws_timers (ws_connect False ws_initial) = []"
    by (simp add: ws_connect_def ws_initial_def)
  have c: "ws_created (ws_connect False ws_initial) = 1"
    by (simp add: ws_connect_def ws_initial_def)
  show ?thesis
    using h1 h2 c ws_reconnects_bounded [OF h1 h2, of 7]
    by (simp add: maxReconnectAttempts_def)
qed

lemma funpow_6: "(f ^^ 6) x = f (f (f (f (f (f x)))))"
  by (simp add: eval_nat_numeral)

text \<open>
  Claim C2 as stated fails for the progress stream consumer: \<^verbatim>\<open>useSSE\<close> keeps no attempt
  counter, and six abnormal closures in a row are answered by six reconnections.
\<close>

theorem sse_reconnects_unbounded_counterexample:
  "\<not> sse_created ((sse_drop ^^ 6) (sse_connect False sse_initial)) - 1 \<le> maxReconnectAttempts"
  by (simp add: funpow_6 sse_drop_def sse_connect_def sse_initial_def sse_onerror_def
      sse_timeout_def maxReconnectAttempts_def Let_def)


lemma ws_onclose_timers:
  assumes "ws_timers s = []"
  shows "ws_timers (ws_onclose s) =
     (if reconnectAttempts s < maxReconnectAttempts then [2000 * Suc (reconnectAttempts s)] else [])"
  using assms by (simp add: ws_onclose_def Let_def)

lemma ws_delays_from:
  assumes "ws_timers s = []" "reconnectAttempts s \<le> maxReconnectAttempts"
  shows "ws_delays n s =
     map (\<lambda>k. 2000 * k)
       [Suc (reconnectAttempts s) ..< Suc (min (reconnectAttempts s + n) maxReconnectAttempts)]"
  using assms
proof (induction n arbitrary: s)
  case 0
  then show ?case by simp
next
  case (Suc n)
  note st = ws_drop_step [OF Suc.prems(1)]
  have t: "ws_timers (ws_drop s) = []" using st by simp
  show ?case
  proof (cases "reconnectAttempts s < maxReconnectAttempts")
    case True
    then have a: "reconnectAttempts (ws_drop s) = Suc (reconnectAttempts s)"
      and le: "reconnectAttempts (ws_drop s) \<le> maxReconnectAttempts"
      using st by simp_all
    have hd: "ws_timers (ws_onclose s) = [2000 * Suc (reconnectAttempts s)]"
      using True by (simp add: ws_onclose_timers [OF Suc.prems(1)])
    have tl: "ws_delays n (ws_drop s) = map (\<lambda>k. 2000 * k)
       [Suc (Suc (reconnectAttempts s)) ..< Suc (min (reconnectAttempts s + Suc n) maxReconnectAttempts)]"
      using Suc.IH [OF t le] a by simp
    have lt: "Suc (reconnectAttempts s) < Suc (min (reconnectAttempts s + Suc n) maxReconnectAttempts)"
      using True by simp
    have "[Suc (reconnectAttempts s) ..< Suc (min (reconnectAttempts s + Suc n) maxReconnectAttempts)] =
          Suc (reconnectAttempts s) #
          [Suc (Suc (reconnectAttempts s)) ..< Suc (min (reconnectAttempts s + Suc n) maxReconnectAttempts)]"
      using lt by (rule upt_conv_Cons)
    then show ?thesis using hd tl by (simp del: upt_Suc)
  next
    case False
    then have a: "reconnectAttempts (ws_drop s) = reconnectAttempts s"
      and le: "reconnectAttempts (ws_drop s) \<le> maxReconnectAttempts"
      using st Suc.prems(2) by simp_all
    have eq: "reconnectAttempts s = maxReconnectAttempts" using False Suc.prems(2) by simp
    have "ws_delays (Suc n) s = ws_delays n (ws_drop s)"
      using False by (simp add: ws_onclose_timers [OF Suc.prems(1)])
    also have "\<dots> = []"
      using Suc.IH [OF t le] a eq by simp
    finally show ?thesis using eq by simp
  qed
qed

text \<open>
  Claim C9, as the code has it. The WebSocket consumer waits \<open>2000 * k\<close> ms before its
  \<open>k\<close>-th reconnection in a row, for \<open>k\<close> up to \<open>maxReconnectAttempts\<close>: the delay grows
  linearly. The progress stream consumer waits 3000 ms every time.
\<close>

theorem reconnect_delays_linear:
  assumes "reconnectAttempts s = 0" and "ws_timers s = []"
  shows "ws_delays n s = map (\<lambda>k. 2000 * k) [1 ..< Suc (min n maxReconnectAttempts)] \<and>
         (rs \<noteq> CLOSED \<longrightarrow> sse_timers (sse_onerror src rs t) = sse_timers t @ [(3000, src)])"
proof -
  have le: "reconnectAttempts s \<le> maxReconnectAttempts" using assms(1) by simp
  have "ws_delays n s = map (\<lambda>k. 2000 * k) [1 ..< Suc (min n maxReconnectAttempts)]"
    using ws_delays_from [OF assms(2) le, of n] assms(1) by (simp del: upt_Suc)
  then show ?thesis by (simp add: sse_onerror_def Let_def del: upt_Suc)
qed

lemma upt_1_6: "[1 ..< Suc 5] = [1, 2, 3, 4, 5::nat]"
  by (simp add: upt_rec)

theorem reconnect_delays_linear_witness:
  "reconnectAttempts (ws_connect False ws_initial) = 0 \<and>
   ws_timers (ws_connect False ws_initial) = [] \<and>
   ws_delays 7 (ws_connect False ws_initial) = [2000, 4000, 6000, 8000, 10000] \<and>
   CONNECTING \<noteq> CLOSED \<and>
   sse_timers (sse_onerror 0 CONNECTING (sse_connect False sse_initial)) = [(3000, 0)]"
proof -
  have h1: "reconnectAttempts (ws_connect False ws_initial) = 0"
    by (simp add: ws_connect_def ws_initial_def)
  have h2: "ws_timers (ws_connect False ws_initial) = []"
    by (simp add: ws_connect_def ws_initial_def)
  have t: "sse_timers (sse_connect False sse_initial) = []"
    by (simp add: sse_connect_def sse_initial_def)
  have m: "min 7 maxReconnectAttempts = 5" by (simp add: maxReconnectAttempts_def)
  note th = reconnect_delays_linear [OF h1 h2, of 7 CONNECTING 0 "sse_connect False sse_initial"]
  from th have d: "ws_delays 7 (ws_connect False ws_initial) = [2000, 4000, 6000, 8000, 10000]"
    unfolding m upt_1_6 by simp
  from th t have e: "sse_timers (sse_onerror 0 CONNECTING (sse_connect False sse_initial)) = [(3000, 0)]"
    by simp
  show ?thesis using h1 h2 d e by simp
qed

lemma ws_delays_3:
  "ws_delays 3 s = ws_timers (ws_onclose s) @ ws_timers (ws_onclose (ws_drop s)) @
     ws_timers (ws_onclose (ws_drop (ws_drop s)))"
  by (simp add: numeral_3_eq_3)

text \<open>
  Claim C9 as stated fails: the first three delays are 2000, 4000 and 6000 ms, which have
  a constant difference and no constant ratio.
\<close>

theorem backoff_not_exponential_counterexample:
  "ws_delays 3 (ws_connect False ws_initial) = [2000, 4000, 6000] \<and>
   \<not> geometric (ws_delays 3 (ws_connect False ws_initial))"
  by (simp add: ws_delays_3 ws_drop_def ws_onclose_def ws_timeout_def ws_connect_def
      ws_initial_def maxReconnectAttempts_def Let_def)

section \<open>Terminal events and closure\<close>

text \<open>
  Claim C8 at the failing input, on the progress stream. A \<open>complete\<close> message has been
  received; the server then ends the stream and the browser reports the error with the
  source \<open>CONNECTING\<close>. The handler, whose comment says it checks for a normal closure
  (completed/failed), schedules a reconnect, and the timer constructs a second
  \<^verbatim>\<open>EventSource\<close>.
\<close>

theorem sse_reconnects_after_complete:
  "map sse_type (sse_messages
     (sse_onmessage
        (Some \<lparr>raw_type = Some ''complete'',
               raw_data = Some \<lparr>step = None, progress = Some 100, message = Some ''done'',
                                 result = None\<rparr>,
               raw_self = \<lparr>step = None, progress = None, message = None, result = None\<rparr>\<rparr>)
        (sse_onopen (sse_connect False sse_initial)))) = [''complete''] \<and>
   sse_timers (sse_onerror 0 CONNECTING
     (sse_onmessage
        (Some \<lparr>raw_type = Some ''complete'',
               raw_data = Some \<lparr>step = None, progress = Some 100, message = Some ''done'',
                                 result = None\<rparr>,
               raw_self = \<lparr>step = None, progress = None, message = None, result = None\<rparr>\<rparr>)
        (sse_onopen (sse_connect False sse_initial)))) = [(3000, 0)] \<and>
   sse_created (sse_timeout False (sse_onerror 0 CONNECTING
     (sse_onmessage
        (Some \<lparr>raw_type = Some ''complete'',
               raw_data = Some \<lparr>step = None, progress = Some 100, message = Some ''done'',
                                 result = None\<rparr>,
               raw_self = \<lparr>step = None, progress = None, message = None, result = None\<rparr>\<rparr>)
        (sse_onopen (sse_connect False sse_initial))))) = 2"
  by (simp add: sse_timeout_def sse_onerror_def sse_onmessage_def sse_onopen_def sse_connect_def
      sse_initial_def Let_def)

text \<open>
  The WebSocket consumer does the same: its \<^verbatim>\<open>onclose\<close> looks at the attempt counter
  only, and a closure after a \<open>complete\<close> message constructs a second socket.
\<close>

lemma ws_reconnects_after_complete:
  "map ws_type (ws_messages (ws_drop
     (ws_onmessage (Some \<lparr>ws_type = ''complete'', ws_payload = ''{}''\<rparr>)
        (ws_onopen (ws_connect False ws_initial))))) = [''complete''] \<and>
   ws_timers (ws_onclose
     (ws_onmessage (Some \<lparr>ws_type = ''complete'', ws_payload = ''{}''\<rparr>)
        (ws_onopen (ws_connect False ws_initial)))) = [2000] \<and>
   ws_created (ws_drop
     (ws_onmessage (Some \<lparr>ws_type = ''complete'', ws_payload = ''{}''\<rparr>)
        (ws_onopen (ws_connect False ws_initial)))) = 2"
  by (simp add: ws_drop_def ws_onclose_def ws_timeout_def ws_onmessage_def ws_onopen_def
      ws_connect_def ws_initial_def maxReconnectAttempts_def Let_def)

text \<open>
  Where the closure is graceful. On the chat stream, End closes the channel; no later
  event is processed and no handler constructs another \<^verbatim>\<open>EventSource\<close>. On the progress
  stream, the handler schedules nothing and constructs nothing when the source reports
  \<open>CLOSED\<close> at the error.
\<close>

lemma graceful_closure_no_reconnect:
  assumes "\<not> es_closed s"
  shows "es_closed (deliver now End s) \<and>
         stream evs (deliver now End s) = deliver now End s \<and>
         es_opened (stream evs (deliver now End s)) = es_opened s \<and>
         es_opened (onerror (deliver now End s)) = es_opened s \<and>
         es_opened (clearStepsTimeout (deliver now End s)) = es_opened s \<and>
         sse_timers (sse_onerror src CLOSED t) = sse_timers t \<and>
         sse_created (sse_onerror src CLOSED t) = sse_created t \<and>
         eventSourceRef (sse_onerror src CLOSED t) = eventSourceRef t"
proof -
  have c: "es_closed (deliver now End s)" using assms by (simp add: deliver_def)
  have o: "es_opened (onerror (deliver now End s)) = es_opened s"
    by (simp add: onerror_def)
  have k: "es_opened (clearStepsTimeout (deliver now End s)) = es_opened s"
    by (simp add: clearStepsTimeout_def)
  show ?thesis
    using c o k stream_closed [OF c, of evs] by (simp add: sse_onerror_def Let_def)
qed

lemma graceful_closure_no_reconnect_example:
  "\<not> es_closed (startStreaming ''q'' 1000 1000 (initializeChat ''s1'' initial_chat)) \<and>
   es_closed (deliver 5 End (startStreaming ''q'' 1000 1000 (initializeChat ''s1'' initial_chat))) \<and>
   es_opened (stream [(6, Content ''x''), (7, Image ''a'' ''b'')]
      (deliver 5 End (startStreaming ''q'' 1000 1000 (initializeChat ''s1'' initial_chat)))) = 1"
proof -
  have h: "\<not> es_closed (startStreaming ''q'' 1000 1000 (initializeChat ''s1'' initial_chat))"
    by (simp add: startStreaming_def initializeChat_def Let_def)
  have o: "es_opened (startStreaming ''q'' 1000 1000 (initializeChat ''s1'' initial_chat)) = 1"
    by (simp add: startStreaming_def initializeChat_def initial_chat_def Let_def)
  note th = graceful_closure_no_reconnect [OF h, where now = 5
        and evs = "[(6, Content ''x''), (7, Image ''a'' ''b'')]"]
  from th have a: "es_closed (deliver 5 End
      (startStreaming ''q'' 1000 1000 (initializeChat ''s1'' initial_chat)))"
    by (rule conjunct1)
  from th have "es_opened (stream [(6, Content ''x''), (7, Image ''a'' ''b'')]
      (deliver 5 End (startStreaming ''q'' 1000 1000 (initializeChat ''s1'' initial_chat)))) =
      es_opened (startStreaming ''q'' 1000 1000 (initializeChat ''s1'' initial_chat))"
    by blast
  with o have b: "es_opened (stream [(6, Content ''x''), (7, Image ''a'' ''b'')]
      (deliver 5 End (startStreaming ''q'' 1000 1000 (initializeChat ''s1'' initial_chat)))) = 1"
    by (simp only:)
  show ?thesis using h a b by (simp del: stream.simps)
qed

section \<open>Properties of the progress page reducer\<close>

text \<open>
  Claim C10. For a message of type \<open>progress\<close> that is the last of the list: a step that is
  0 or absent leaves the current step unchanged, a progress that is 0 or absent leaves
  the percentage unchanged, a message that is empty or absent leaves the status message
  unchanged; a non-zero step or progress and a non-empty message replace the field.
\<close>

theorem progress_falsy_fields_ignored:
  assumes "sse_type m = ''progress''"
  shows "(step (sse_payload m) = Some 0 \<or> step (sse_payload m) = None \<longrightarrow>
            currentStep (on_messages_change doc stamp (ms @ [m]) p) = currentStep p) \<and>
         (progress (sse_payload m) = Some 0 \<or> progress (sse_payload m) = None \<longrightarrow>
            page_progress (on_messages_change doc stamp (ms @ [m]) p) = page_progress p) \<and>
         (message (sse_payload m) = Some [] \<or> message (sse_payload m) = None \<longrightarrow>
            statusMessage (on_messages_change doc stamp (ms @ [m]) p) = statusMessage p) \<and>
         (\<forall>x. step (sse_payload m) = Some x \<and> x \<noteq> 0 \<longrightarrow>
            currentStep (on_messages_change doc stamp (ms @ [m]) p) = x) \<and>
         (\<forall>x. progress (sse_payload m) = Some x \<and> x \<noteq> 0 \<longrightarrow>
            page_progress (on_messages_change doc stamp (ms @ [m]) p) = x) \<and>
         (\<forall>x. message (sse_payload m) = Some x \<and> x \<noteq> [] \<longrightarrow>
            statusMessage (on_messages_change doc stamp (ms @ [m]) p) = x)"
  using assms
  by (auto simp: on_messages_change_def on_last_message_def Let_def split: option.splits)

theorem progress_falsy_fields_ignored_witness:
  "sse_type \<lparr>sse_type = ''progress'',
             sse_payload = \<lparr>step = Some 0, progress = Some 0, message = Some [], result = None\<rparr>\<rparr>
     = ''progress'' \<and>
   currentStep (on_messages_change (Some ''doc-1'') ''2026-01-01T00:00:00.000Z''
     ([] @ [\<lparr>sse_type = ''progress'',
             sse_payload = \<lparr>step = Some 0, progress = Some 0, message = Some [], result = None\<rparr>\<rparr>])
     (page_initial\<lparr>currentStep := 3, page_progress := 60, statusMessage := ''Enriching''\<rparr>)) = 3 \<and>
   page_progress (on_messages_change (Some ''doc-1'') ''2026-01-01T00:00:00.000Z''
     ([] @ [\<lparr>sse_type = ''progress'',
             sse_payload = \<lparr>step = Some 0, progress = Some 0, message = Some [], result = None\<rparr>\<rparr>])
     (page_initial\<lparr>currentStep := 3, page_progress := 60, statusMessage := ''Enriching''\<rparr>)) = 60 \<and>
   statusMessage (on_messages_change (Some ''doc-1'') ''2026-01-01T00:00:00.000Z''
     ([] @ [\<lparr>sse_type = ''progress'',
             sse_payload = \<lparr>step = Some 0, progress = Some 0, message = Some [], result = None\<rparr>\<rparr>])
     (page_initial\<lparr>currentStep := 3, page_progress := 60, statusMessage := ''Enriching''\<rparr>)) =
     ''Enriching''"
proof -
  let ?m = "\<lparr>sse_type = ''progress'',
             sse_payload = \<lparr>step = Some 0, progress = Some 0, message = Some [], result = None\<rparr>\<rparr>"
  let ?p = "page_initial\<lparr>currentStep := 3, page_progress := 60, statusMessage := ''Enriching''\<rparr>"
  have h: "sse_type ?m = ''progress''" by simp
  note th = progress_falsy_fields_ignored [OF h, where doc = "Some ''doc-1''"
      and stamp = "''2026-01-01T00:00:00.000Z''" and ms = "[]" and p = ?p]
  have p: "currentStep ?p = 3" "page_progress ?p = 60" "statusMessage ?p = ''Enriching''"
    by simp_all
  have f: "step (sse_payload ?m) = Some 0" "progress (sse_payload ?m) = Some 0"
    "message (sse_payload ?m) = Some []" by simp_all
  from th f p show ?thesis by (simp del: append.simps)
qed

section \<open>Properties of the credential rotation dispatcher\<close>








lemma not_selectable_cooling:
  "\<not> selectable now c \<longleftrightarrow> (\<exists>u. slot_status c = CoolingDown u \<and> now < u)"
  by (cases "slot_status c") (auto simp: selectable_def)












text \<open>
  The scenario of the specification: three credentials, the first two rate-limited, the
  third succeeds; the call succeeds with the third credential, the first two are
  CoolingDown, and the next selection before the expiry picks the third again.
\<close>

lemma scenario_three_credentials:
  "dispatch (\<lambda>j. if j < 2 then RateLimitSignal None else Generated ''answer'') 60 0
     (fresh_pool [''k1'', ''k2'', ''k3'']) =
     (Inr ''answer'',
      \<lparr>slots = [\<lparr>secret = ''k1'', slot_status = CoolingDown 60, consecutiveFailures = 0\<rparr>,
                \<lparr>secret = ''k2'', slot_status = CoolingDown 60, consecutiveFailures = 0\<rparr>,
                \<lparr>secret = ''k3'', slot_status = Available, consecutiveFailures = 0\<rparr>],
       lastUsed = 2, upstream_calls = 3\<rparr>) \<and>
   select_next 1
      \<lparr>slots = [\<lparr>secret = ''k1'', slot_status = CoolingDown 60, consecutiveFailures = 0\<rparr>,
                \<lparr>secret = ''k2'', slot_status = CoolingDown 60, consecutiveFailures = 0\<rparr>,
                \<lparr>secret = ''k3'', slot_status = Available, consecutiveFailures = 0\<rparr>],
       lastUsed = 2, upstream_calls = 3\<rparr> = Some 2"
  by (simp add: fresh_pool_def dispatch_def numeral_3_eq_3 select_next_def candidates_def
      selectable_def use_slot_def mark_cooling_def Let_def)

end
